theory Spec2Isabelle
  imports Main "HOL-Library.Multiset"
begin

section \<open>Python strings\<close>

text \<open>
  A Python \<open>str\<close> is modelled as a \<open>string\<close>, a list of characters. The three string
  operations that \<open>expand_filename_template\<close> uses are the substring test
  \<open>old in s\<close>, \<open>s.replace(old, new)\<close> and the f-string that wraps a key in braces.
\<close>

fun startswith :: "string \<Rightarrow> string \<Rightarrow> bool" where
  "startswith s [] = True"
| "startswith [] (p # ps) = False"
| "startswith (c # cs) (p # ps) = (c = p \<and> startswith cs ps)"

text \<open>\<open>contains s sub\<close> is Python's \<open>sub in s\<close>: \<open>sub\<close> occurs at some position of \<open>s\<close>.\<close>

fun contains :: "string \<Rightarrow> string \<Rightarrow> bool" where
  "contains [] sub = (sub = [])"
| "contains (c # cs) sub = (startswith (c # cs) sub \<or> contains cs sub)"

text \<open>
  \<open>s.replace(old, new)\<close> for a non-empty \<open>old\<close>: scan from the left; where \<open>old\<close>
  starts, emit \<open>new\<close> and continue after the occurrence (occurrences never overlap),
  otherwise copy one character.
\<close>

function replace_scan :: "string \<Rightarrow> string \<Rightarrow> string \<Rightarrow> string" where
  "replace_scan [] old new = []"
| "replace_scan (c # cs) old new =
     (if startswith (c # cs) old then new @ replace_scan (drop (length old - 1) cs) old new
      else c # replace_scan cs old new)"
  by pat_completeness auto
termination
  by (relation "measure (\<lambda>(s, old, new). length s)") auto

text \<open>
  With an empty \<open>old\<close> Python inserts \<open>new\<close> before every character and at the end.
\<close>

definition str_replace :: "string \<Rightarrow> string \<Rightarrow> string \<Rightarrow> string" where
  "str_replace s old new =
     (if old = [] then new @ concat (map (\<lambda>c. c # new) s) else replace_scan s old new)"

text \<open>
  \<open>s.strip()\<close> removes leading and trailing whitespace. Characters are read as the code
  points below 256; among them \<open>str.isspace\<close> holds for 9 to 13, 28 to 32, 133 and 160.
\<close>

definition isspace :: "char \<Rightarrow> bool" where
  "isspace c =
     (let n = (of_char c :: nat)
      in (9 \<le> n \<and> n \<le> 13) \<or> (28 \<le> n \<and> n \<le> 32) \<or> n = 133 \<or> n = 160)"

definition strip :: "string \<Rightarrow> string" where
  "strip s = rev (dropWhile isspace (rev (dropWhile isspace s)))"

text \<open>\<open>str(n)\<close> for a non-negative integer: its decimal digits.\<close>

definition digit :: "nat \<Rightarrow> char" where
  "digit d = ''0123456789'' ! d"

fun str_nat :: "nat \<Rightarrow> string" where
  "str_nat n = (if n < 10 then [digit n] else str_nat (n div 10) @ [digit (n mod 10)])"

declare str_nat.simps [simp del]

section \<open>Cells, rows and the row context\<close>

text \<open>
  \<open>pd.read_csv(csv_file, sep=';', dtype=str)\<close> yields a data frame whose cells are
  Python strings, except that a missing field stays the float \<open>nan\<close>: \<open>dtype=str\<close> does
  not switch off pandas' conversion of missing fields. \<open>str\<close> of such a cell is the
  text \<open>nan\<close>. Column names are distinct and every row has one cell per column;
  \<open>row.to_dict()\<close> pairs them up in column order, which is the order in which a Python
  dict is iterated.

  \<open>iterrows\<close> yields every row with its index label, not with its position. When the
  data rows have as many fields as the header, the frame has the default \<open>RangeIndex\<close>
  and the label of the row at position \<open>i\<close> is the integer \<open>i\<close>. When they have one
  field more (a trailing delimiter, say), \<open>read_csv\<close> is called without \<open>index_col\<close>
  and takes the first field of each row as its label: a string, or \<open>nan\<close> when that field
  is missing. With two or more extra fields the label is a tuple; \<open>Fields\<close> carries the
  text Python gives for it. \<open>index_label data i\<close> is the label of the row at position
  \<open>i\<close>; only positions below the number of rows are read. \<open>format_label\<close> is the text
  that an f-string makes of a label.
\<close>

datatype cell = Str string | NaN

fun str :: "cell \<Rightarrow> string" where
  "str (Str s) = s"
| "str NaN = ''nan''"

type_synonym row_context = "(string \<times> cell) list"

datatype label = Position nat | Field cell | Fields string

fun format_label :: "label \<Rightarrow> string" where
  "format_label (Position n) = str_nat n"
| "format_label (Field c) = str c"
| "format_label (Fields s) = s"

record dataframe =
  columns :: "string list"
  rows :: "cell list list"
  index_label :: "nat \<Rightarrow> label"

definition to_dict :: "string list \<Rightarrow> cell list \<Rightarrow> row_context" where
  "to_dict cols row = zip cols row"

definition iterrows :: "dataframe \<Rightarrow> (label \<times> row_context) list" where
  "iterrows data =
     map (\<lambda>(i, row). (index_label data i, to_dict (columns data) row)) (enumerate 0 (rows data))"


section \<open>The placeholder expander\<close>

text \<open>
  \<^verbatim>\<open>
  def expand_filename_template(template_str, context):
      result = template_str
      for key, value in context.items():
          placeholder = f"{{{key}}}"
          if placeholder in result:
              result = result.replace(placeholder, str(value))
      return result
  \<close>
  The loop over \<open>context.items()\<close> is a recursion over the items, carrying \<open>result\<close>.
\<close>

definition placeholder :: "string \<Rightarrow> string" where
  "placeholder key = ''{'' @ key @ ''}''"

fun expand_loop :: "string \<Rightarrow> row_context \<Rightarrow> string" where
  "expand_loop result [] = result"
| "expand_loop result ((key, v) # items) =
     expand_loop
       (if contains result (placeholder key)
        then str_replace result (placeholder key) (str v) else result)
       items"

definition expand_filename_template :: "string \<Rightarrow> row_context \<Rightarrow> string" where
  "expand_filename_template template_str ctx = expand_loop template_str ctx"

text \<open>
  The variant without the membership test, every key's placeholder being replaced
  unconditionally.
\<close>

fun expand_unguarded :: "string \<Rightarrow> row_context \<Rightarrow> string" where
  "expand_unguarded result [] = result"
| "expand_unguarded result ((key, v) # items) =
     expand_unguarded (str_replace result (placeholder key) (str v)) items"

section \<open>The batch run\<close>

text \<open>
  Exceptions are values. \<open>generate_doc\<close> hands the template bytes and the context to
  \<open>docxtpl\<close>, which is outside the repository: its \<open>render\<close> and \<open>save\<close> are the
  parameter \<open>docx_render\<close>, returning the document's bytes or the exception raised.
  The archive is the list of entries in the order \<open>writestr\<close> wrote them; \<open>writestr\<close>
  appends an entry also when its name is already in the archive.
\<close>

datatype exc = Exception string

fun message :: "exc \<Rightarrow> string" where
  "message (Exception m) = m"

type_synonym bytes = string
type_synonym archive = "(string \<times> bytes) list"
type_synonym renderer = "bytes \<Rightarrow> row_context \<Rightarrow> exc + bytes"

definition generate_doc :: "renderer \<Rightarrow> bytes \<Rightarrow> row_context \<Rightarrow> exc + bytes" where
  "generate_doc docx_render template_bytes ctx = docx_render template_bytes ctx"

text \<open>
  Lines 137 to 148 of \<open>main\<close>: the entry name of the row that \<open>iterrows\<close> yields with
  the label \<open>index\<close>.
\<close>

definition filename_prefix :: "string \<Rightarrow> label \<Rightarrow> row_context \<Rightarrow> string" where
  "filename_prefix filename_template index ctx =
     (let prefix = expand_filename_template filename_template ctx
      in if strip prefix = [] then ''Eintrag_'' @ format_label index else prefix)"

definition docx_filename :: "string \<Rightarrow> label \<Rightarrow> row_context \<Rightarrow> string" where
  "docx_filename filename_template index ctx =
     filename_prefix filename_template index ctx @ ''.docx''"

text \<open>
  The \<open>for index, row in data.iterrows()\<close> loop, \<open>zf\<close> being the archive written so
  far. An exception of \<open>generate_doc\<close> leaves the loop at once.
\<close>

fun write_rows :: "renderer \<Rightarrow> bytes \<Rightarrow> string \<Rightarrow> archive \<Rightarrow> (label \<times> row_context) list
    \<Rightarrow> exc + archive" where
  "write_rows docx_render template_bytes filename_template zf [] = Inr zf"
| "write_rows docx_render template_bytes filename_template zf ((index, ctx) # rest) =
     (case generate_doc docx_render template_bytes ctx of
        Inl e \<Rightarrow> Inl e
      | Inr docx_bytes \<Rightarrow>
          write_rows docx_render template_bytes filename_template
            (zf @ [(docx_filename filename_template index ctx, docx_bytes)]) rest)"

text \<open>
  What the user sees after the button: the messages and the download button, in order,
  and the exception that left \<open>main\<close>, if any. The page's static widgets are left out.
  \<open>uploaded_template\<close> and \<open>csv_file\<close> are \<open>None\<close> when nothing was uploaded; an uploaded
  file object is truthy whatever its content. \<open>read_csv\<close> is pandas' parser.
\<close>

datatype ui_event =
  Warning string
| Error string
| Success string
| Download_button string archive string string

definition main :: "renderer \<Rightarrow> (bytes \<Rightarrow> exc + dataframe) \<Rightarrow> bool \<Rightarrow> bytes option
    \<Rightarrow> bytes option \<Rightarrow> string \<Rightarrow> ui_event list \<times> exc option" where
  "main docx_render read_csv button uploaded_template csv_file filename_template =
     (if button then
        (case (uploaded_template, csv_file) of
           (Some template_bytes, Some csv_bytes) \<Rightarrow>
             (case read_csv csv_bytes of
                Inl e \<Rightarrow> ([Error (''Fehler beim Einlesen der CSV-Datei: '' @ message e)], None)
              | Inr data \<Rightarrow>
                  (case write_rows docx_render template_bytes filename_template []
                          (iterrows data) of
                     Inl e \<Rightarrow> ([], Some e)
                   | Inr zf \<Rightarrow>
                       ([Success ''Dokumente erfolgreich generiert!'',
                         Download_button ''ZIP-Archiv herunterladen'' zf ''dokumente.zip''
                           ''application/x-zip-compressed''], None)))
         | _ \<Rightarrow>
             ([Warning
                 ''Bitte lade sowohl das Word-Template als auch eine CSV-Datei hoch.''],
              None))
      else ([], None))"

text \<open>The page of a finished run: the success message and the download button.\<close>

abbreviation success_page :: "archive \<Rightarrow> ui_event list" where
  "success_page zf \<equiv>
     [Success ''Dokumente erfolgreich generiert!'',
      Download_button ''ZIP-Archiv herunterladen'' zf ''dokumente.zip''
        ''application/x-zip-compressed'']"

section \<open>Notions used to state the properties\<close>



text \<open>
  A well-formed filename template is literal text without braces interleaved with
  tokens \<open>{name}\<close> whose names have no braces. \<open>fill\<close> is the substitution of all tokens
  at once.
\<close>

definition no_brace :: "string \<Rightarrow> bool" where
  "no_brace s = (CHR ''{'' \<notin> set s \<and> CHR ''}'' \<notin> set s)"

datatype piece = Lit string | Tok string

fun piece_text :: "piece \<Rightarrow> string" where
  "piece_text (Lit l) = l"
| "piece_text (Tok n) = n"

fun render_piece :: "piece \<Rightarrow> string" where
  "render_piece (Lit l) = l"
| "render_piece (Tok n) = placeholder n"

definition template_text :: "piece list \<Rightarrow> string" where
  "template_text ps = concat (map render_piece ps)"

fun fill :: "(string \<rightharpoonup> cell) \<Rightarrow> piece \<Rightarrow> piece" where
  "fill m (Lit l) = Lit l"
| "fill m (Tok n) = (case m n of None \<Rightarrow> Tok n | Some v \<Rightarrow> Lit (str v))"

text \<open>
  Sample collaborators for concrete runs: a renderer that returns the template's bytes
  for every row, one that raises on one given context, and a parser that yields a given
  data frame.
\<close>

definition render_copy :: renderer where
  "render_copy template_bytes ctx = Inr template_bytes"

definition render_rejecting :: "row_context \<Rightarrow> renderer" where
  "render_rejecting bad template_bytes ctx =
     (if ctx = bad then Inl (Exception ''render failed'') else Inr template_bytes)"

definition parsed_as :: "dataframe \<Rightarrow> bytes \<Rightarrow> exc + dataframe" where
  "parsed_as data csv_bytes = Inr data"

section \<open>Substring test and replacement\<close>

lemma startswith_append: "startswith s p \<Longrightarrow> startswith (s @ t) p"
  by (induction s p rule: startswith.induct) auto

lemma startswith_length: "startswith s p \<Longrightarrow> length p \<le> length s"
  by (induction s p rule: startswith.induct) auto

lemma startswith_self_append: "startswith (p @ t) p"
  by (induction p) auto

lemma contains_Nil [simp]: "contains s []"
  by (cases s) auto

lemma replace_scan_absent: "\<not> contains s old \<Longrightarrow> replace_scan s old new = s"
  by (induction s) auto

lemma str_replace_absent: "\<not> contains s old \<Longrightarrow> str_replace s old new = s"
  by (auto simp: str_replace_def replace_scan_absent)

lemma expand_loop_unguarded: "expand_loop t ctx = expand_unguarded t ctx"
  by (induction t ctx rule: expand_loop.induct) (auto simp: str_replace_absent)




lemma replace_scan_self_append:
  "old \<noteq> [] \<Longrightarrow> replace_scan (old @ b) old new = new @ replace_scan b old new"
  by (cases old) (auto simp: startswith_self_append)





lemma placeholder_not_Nil [simp]: "placeholder key \<noteq> []"
  by (simp add: placeholder_def)



section \<open>Tokens and braces\<close>

lemma replace_scan_no_open:
  "CHR ''{'' \<notin> set l \<Longrightarrow>
     replace_scan (l @ s) (placeholder k) new = l @ replace_scan s (placeholder k) new"
  by (induction l) (auto simp: placeholder_def)

lemma startswith_close_eq:
  "startswith (n @ CHR ''}'' # b) (k @ [CHR ''}'']) \<Longrightarrow> CHR ''}'' \<notin> set k
     \<Longrightarrow> CHR ''}'' \<notin> set n \<Longrightarrow> k = n"
proof (induction n arbitrary: k)
  case Nil
  then show ?case by (cases k) auto
next
  case (Cons c n)
  then show ?case by (cases k) auto
qed

lemma startswith_token_eq:
  "startswith (placeholder n @ b) (placeholder k) \<Longrightarrow> no_brace k \<Longrightarrow> no_brace n \<Longrightarrow> k = n"
  using startswith_close_eq [of n b k] by (simp add: placeholder_def no_brace_def)

lemma startswith_before_open:
  "startswith (a @ CHR ''{'' # t) p \<Longrightarrow> CHR ''{'' \<notin> set p \<Longrightarrow> startswith a p"
proof (induction a arbitrary: p)
  case Nil
  then show ?case by (cases p) auto
next
  case (Cons c a)
  then show ?case by (cases p) auto
qed

lemma startswith_before_token:
  assumes "startswith (a @ placeholder n @ b) (placeholder k)" and "a \<noteq> []" and "no_brace k"
  shows "startswith a (placeholder k)"
proof -
  obtain c cs where a: "a = c # cs" using assms(2) by (cases a) auto
  have "startswith (cs @ CHR ''{'' # n @ CHR ''}'' # b) (k @ [CHR ''}''])" and c: "c = CHR ''{''"
    using assms(1) by (simp_all add: a placeholder_def)
  then have "startswith cs (k @ [CHR ''}''])"
    using startswith_before_open assms(3) by (simp add: no_brace_def)
  then show ?thesis by (simp add: a c placeholder_def)
qed

lemma replace_scan_token:
  assumes "no_brace k" and "no_brace n"
  shows "replace_scan (placeholder n @ b) (placeholder k) new =
     (if n = k then new else placeholder n) @ replace_scan b (placeholder k) new"
proof (cases "n = k")
  case True
  then show ?thesis by (simp add: replace_scan_self_append)
next
  case False
  then have "\<not> startswith (placeholder n @ b) (placeholder k)"
    using startswith_token_eq assms by blast
  then have "replace_scan (placeholder n @ b) (placeholder k) new =
      CHR ''{'' # replace_scan ((n @ ''}'') @ b) (placeholder k) new"
    by (simp add: placeholder_def)
  also have "\<dots> = CHR ''{'' # (n @ ''}'') @ replace_scan b (placeholder k) new"
    using assms(2) by (subst replace_scan_no_open) (auto simp: no_brace_def)
  finally show ?thesis using False by (simp add: placeholder_def)
qed

lemma replace_scan_around_token:
  assumes "no_brace k" and "no_brace n" and "n \<noteq> k"
  shows "replace_scan (a @ placeholder n @ b) (placeholder k) new =
     replace_scan a (placeholder k) new @ placeholder n @ replace_scan b (placeholder k) new"
proof (induction "length a" arbitrary: a rule: less_induct)
  case less
  show ?case
  proof (cases a)
    case Nil
    then show ?thesis using assms by (simp add: replace_scan_token)
  next
    case (Cons c cs)
    show ?thesis
    proof (cases "startswith (c # cs) (placeholder k)")
      case True
      then have len: "length (placeholder k) - 1 \<le> length cs"
        using startswith_length by fastforce
      have "startswith ((c # cs) @ placeholder n @ b) (placeholder k)"
        using True by (rule startswith_append)
      moreover have "length (drop (length (placeholder k) - 1) cs) < length a"
        using Cons by simp
      ultimately show ?thesis
        using True len less.hyps [of "drop (length (placeholder k) - 1) cs"]
        by (simp add: Cons)
    next
      case False
      then have "\<not> startswith ((c # cs) @ placeholder n @ b) (placeholder k)"
        using startswith_before_token assms(1) by blast
      then show ?thesis
        using False less.hyps [of cs] by (simp add: Cons)
    qed
  qed
qed

lemma expand_unguarded_around_token:
  assumes "no_brace name" and "name \<notin> fst ` set ctx" and "\<forall>key \<in> fst ` set ctx. no_brace key"
  shows "expand_unguarded (a @ placeholder name @ b) ctx =
     expand_unguarded a ctx @ placeholder name @ expand_unguarded b ctx"
  using assms(2,3)
proof (induction ctx arbitrary: a b)
  case Nil
  then show ?case by simp
next
  case (Cons kv ctx)
  obtain key v where kv: "kv = (key, v)" by (cases kv)
  have "no_brace key" and "name \<noteq> key"
    using Cons.prems by (auto simp: kv)
  then have "str_replace (a @ placeholder name @ b) (placeholder key) (str v) =
      str_replace a (placeholder key) (str v) @ placeholder name @
      str_replace b (placeholder key) (str v)"
    using assms(1) by (simp add: str_replace_def replace_scan_around_token)
  moreover have "name \<notin> fst ` set ctx" and "\<forall>key \<in> fst ` set ctx. no_brace key"
    using Cons.prems by auto
  ultimately show ?case
    using Cons.IH by (simp add: kv)
qed

lemma str_replace_template_text:
  assumes "no_brace k" and "\<forall>p \<in> set ps. no_brace (piece_text p)"
  shows "str_replace (template_text ps) (placeholder k) (str v) =
     template_text (map (fill [k \<mapsto> v]) ps)"
proof -
  define f where "f = fill [k \<mapsto> v]"
  have f_Lit: "f (Lit l) = Lit l" for l
    by (simp add: f_def)
  have f_Tok: "f (Tok n) = (if n = k then Lit (str v) else Tok n)" for n
    by (simp add: f_def)
  have "replace_scan (template_text ps) (placeholder k) (str v) = template_text (map f ps)"
    using assms(2)
  proof (induction ps)
    case Nil
    then show ?case by (simp add: template_text_def)
  next
    case (Cons p ps)
    then have IH: "replace_scan (template_text ps) (placeholder k) (str v) =
        template_text (map f ps)" by simp
    show ?case
    proof (cases p)
      case (Lit l)
      then have "CHR ''{'' \<notin> set l" using Cons.prems by (simp add: no_brace_def)
      then show ?thesis
        using IH by (simp add: Lit f_Lit template_text_def replace_scan_no_open)
    next
      case (Tok n)
      then have "no_brace n" using Cons.prems by simp
      then show ?thesis
        using IH assms(1) by (simp add: Tok f_Tok template_text_def replace_scan_token)
    qed
  qed
  then show ?thesis by (simp add: str_replace_def f_def)
qed

lemma fill_fill:
  "fill (map_of ctx) (fill [k \<mapsto> v] p) = fill (map_of ((k, v) # ctx)) p"
  by (cases p) auto

lemma no_brace_fill:
  "no_brace (piece_text p) \<Longrightarrow> no_brace (str v) \<Longrightarrow> no_brace (piece_text (fill [k \<mapsto> v] p))"
  by (cases p) auto

lemma expand_unguarded_template_text:
  assumes "\<forall>(k, v) \<in> set ctx. no_brace k \<and> no_brace (str v)"
    and "\<forall>p \<in> set ps. no_brace (piece_text p)"
  shows "expand_unguarded (template_text ps) ctx = template_text (map (fill (map_of ctx)) ps)"
  using assms
proof (induction ctx arbitrary: ps)
  case Nil
  have "map (fill Map.empty) ps = ps"
  proof (rule map_idI)
    fix p show "fill Map.empty p = p" by (cases p) auto
  qed
  then show ?case by simp
next
  case (Cons kv ctx)
  obtain k v where kv: "kv = (k, v)" by (cases kv)
  have k: "no_brace k" and v: "no_brace (str v)" using Cons.prems(1) by (auto simp: kv)
  have wf: "\<forall>p \<in> set (map (fill [k \<mapsto> v]) ps). no_brace (piece_text p)"
    using Cons.prems(2) v by (auto intro: no_brace_fill)
  have "expand_unguarded (template_text ps) (kv # ctx) =
      expand_unguarded (template_text (map (fill [k \<mapsto> v]) ps)) ctx"
    using str_replace_template_text [OF k Cons.prems(2)] by (simp add: kv)
  also have "\<dots> = template_text (map (fill (map_of ctx)) (map (fill [k \<mapsto> v]) ps))"
    using Cons.prems(1) wf by (intro Cons.IH) auto
  also have "\<dots> = template_text (map (fill (map_of (kv # ctx))) ps)"
    unfolding kv by (simp add: fill_fill comp_def)
  finally show ?case .
qed

section \<open>The expander's contract\<close>

text \<open>
  C10. The membership test before the replacement is redundant: for every template and
  every context, \<open>expand_filename_template\<close> returns what the variant returns that calls
  \<open>result.replace(placeholder, str(value))\<close> for every key without testing first.
\<close>

theorem guard_is_redundant: "expand_filename_template t ctx = expand_unguarded t ctx"
  by (simp add: expand_filename_template_def expand_loop_unguarded)

theorem guard_is_redundant_witness:
  "expand_unguarded ''A_{x}_{y}'' [(''x'', Str ''1''), (''z'', NaN)] = ''A_1_{y}'' \<and>
   expand_filename_template ''A_{x}_{y}'' [(''x'', Str ''1''), (''z'', NaN)] = ''A_1_{y}''"
proof -
  have "expand_unguarded ''A_{x}_{y}'' [(''x'', Str ''1''), (''z'', NaN)] = ''A_1_{y}''"
    by (simp add: placeholder_def str_replace_def)
  then show ?thesis
    by (simp only: guard_is_redundant)
qed




text \<open>
  C5, as amended. Let the template contain a token \<open>{name}\<close> whose name has no brace and
  matches no key of the context, and let no key of the context contain a brace. Then
  the token is left verbatim, where it stands: the result is the expansion of the text
  before it, the token, and the expansion of the text after it. In particular the
  template \<open>A_{missing}\<close> with \<open>x = 1\<close> gives \<open>A_{missing}\<close>.
\<close>

theorem unknown_token_left_verbatim:
  assumes "no_brace name" and "name \<notin> fst ` set ctx" and "\<forall>key \<in> fst ` set ctx. no_brace key"
  shows "expand_filename_template (a @ placeholder name @ b) ctx =
       expand_filename_template a ctx @ placeholder name @ expand_filename_template b ctx \<and>
     expand_filename_template ''A_{missing}'' [(''x'', Str ''1'')] = ''A_{missing}''"
proof -
  have "expand_filename_template ''A_{missing}'' [(''x'', Str ''1'')] = ''A_{missing}''"
    by (simp add: expand_filename_template_def placeholder_def)
  then show ?thesis
    using expand_unguarded_around_token [OF assms]
    by (simp add: expand_filename_template_def expand_loop_unguarded)
qed

theorem unknown_token_left_verbatim_witness:
  "expand_filename_template (''Brief_'' @ placeholder ''Ort'' @ ''_{Nachname}'')
     [(''Nachname'', Str ''Muster'')] =
   expand_filename_template ''Brief_'' [(''Nachname'', Str ''Muster'')] @ placeholder ''Ort'' @
   expand_filename_template ''_{Nachname}'' [(''Nachname'', Str ''Muster'')]"
proof -
  have "no_brace ''Ort''"
    by (simp add: no_brace_def)
  moreover have "''Ort'' \<notin> fst ` set [(''Nachname'', Str ''Muster'')]"
    by simp
  moreover have "\<forall>key \<in> fst ` set [(''Nachname'', Str ''Muster'')]. no_brace key"
    by (simp add: no_brace_def)
  ultimately show ?thesis
    using unknown_token_left_verbatim [of "''Ort''" "[(''Nachname'', Str ''Muster'')]"]
    by blast
qed

text \<open>
  Without the condition on the keys the token can disappear: the column name
  \<open>missing}{x\<close> has the placeholder \<open>{missing}{x}\<close>, whose replacement removes the token
  \<open>{missing}\<close> although no column is called \<open>missing\<close>.
\<close>

theorem unknown_token_removed:
  "contains ''{missing}{x}'' (placeholder ''missing'') \<and>
   ''missing'' \<notin> fst ` set [(''missing}{x'', Str ''1'')] \<and>
   expand_filename_template ''{missing}{x}'' [(''missing}{x'', Str ''1'')] = ''1''"
  by (simp add: expand_filename_template_def placeholder_def str_replace_def)

text \<open>
  C4, as amended. For a well-formed template (literal text without braces and tokens
  with brace-free names) and a context whose keys and stringified values contain no
  brace, the result does not depend on the order of the context's items: any two
  orderings of the same items with distinct keys give the same string.
\<close>

theorem order_of_keys_irrelevant:
  assumes "\<forall>p \<in> set ps. no_brace (piece_text p)"
    and "\<forall>(k, v) \<in> set ctx. no_brace k \<and> no_brace (str v)"
    and "distinct (map fst ctx)"
    and "mset ctx' = mset ctx"
  shows "expand_filename_template (template_text ps) ctx' =
     expand_filename_template (template_text ps) ctx"
proof -
  have set_eq: "set ctx' = set ctx" using assms(4) by (rule mset_eq_setD)
  have "mset (map fst ctx') = mset (map fst ctx)" using assms(4) by (metis mset_map)
  then have "distinct (map fst ctx')"
    using assms(3) mset_eq_imp_distinct_iff by blast
  then have "map_of ctx' = map_of ctx"
    using assms(3) set_eq by (simp add: map_of_inject_set)
  moreover have "\<forall>(k, v) \<in> set ctx'. no_brace k \<and> no_brace (str v)"
    using assms(2) set_eq by simp
  ultimately show ?thesis
    using assms(1,2)
    by (simp add: expand_filename_template_def expand_loop_unguarded
        expand_unguarded_template_text)
qed

theorem order_of_keys_irrelevant_witness:
  "expand_filename_template
     (template_text [Lit ''Dokument_'', Tok ''Nachname'', Lit ''_'', Tok ''Vorname''])
     [(''Nachname'', Str ''Muster''), (''Vorname'', Str ''Anna'')] =
   expand_filename_template
     (template_text [Lit ''Dokument_'', Tok ''Nachname'', Lit ''_'', Tok ''Vorname''])
     [(''Vorname'', Str ''Anna''), (''Nachname'', Str ''Muster'')]"
proof -
  have "\<forall>p \<in> set [Lit ''Dokument_'', Tok ''Nachname'', Lit ''_'', Tok ''Vorname''].
      no_brace (piece_text p)"
    by (simp add: no_brace_def)
  moreover have "\<forall>(k, v) \<in> set [(''Vorname'', Str ''Anna''), (''Nachname'', Str ''Muster'')].
      no_brace k \<and> no_brace (str v)"
    by (simp add: no_brace_def)
  moreover have "distinct (map fst [(''Vorname'', Str ''Anna''), (''Nachname'', Str ''Muster'')])"
    by simp
  moreover have "mset [(''Nachname'', Str ''Muster''), (''Vorname'', Str ''Anna'')] =
      mset [(''Vorname'', Str ''Anna''), (''Nachname'', Str ''Muster'')]"
    by (simp add: add_mset_commute)
  ultimately show ?thesis
    by (rule order_of_keys_irrelevant)
qed

text \<open>
  For arbitrary templates and contexts the order matters: a value may itself contain
  a token. The two orderings of \<open>a = {b}\<close>, \<open>b = X\<close> expand the template \<open>{a}\<close>
  differently.
\<close>

theorem order_of_keys_matters:
  "mset [(''b'', Str ''X''), (''a'', Str ''{b}'')] = mset [(''a'', Str ''{b}''), (''b'', Str ''X'')] \<and>
   expand_filename_template ''{a}'' [(''a'', Str ''{b}''), (''b'', Str ''X'')] = ''X'' \<and>
   expand_filename_template ''{a}'' [(''b'', Str ''X''), (''a'', Str ''{b}'')] = ''{b}''"
  by (simp add: expand_filename_template_def placeholder_def str_replace_def add_mset_commute)

section \<open>The batch run: rows, names and the archive\<close>









lemma write_rows_raises:
  assumes "\<forall>(i, ctx) \<in> set before. \<exists>d. generate_doc docx_render tb ctx = Inr d"
    and "generate_doc docx_render tb ctx = Inl e"
  shows "write_rows docx_render tb ft zf (before @ (i, ctx) # after) = Inl e"
  using assms(1)
proof (induction before arbitrary: zf)
  case Nil
  then show ?case using assms(2) by simp
next
  case (Cons item before)
  obtain j c where item: "item = (j, c)" by (cases item)
  obtain d where d: "generate_doc docx_render tb c = Inr d"
    using Cons.prems by (auto simp: item)
  have "\<forall>(i, ctx) \<in> set before. \<exists>d. generate_doc docx_render tb ctx = Inr d"
    using Cons.prems by simp
  from Cons.IH [OF this]
  show ?case by (simp add: item d)
qed






lemma main_raises:
  assumes "read_csv csv_bytes = Inr data"
    and "rows data = before @ row # after"
    and "\<forall>r \<in> set before. \<exists>d. generate_doc docx_render tb (to_dict (columns data) r) = Inr d"
    and "generate_doc docx_render tb (to_dict (columns data) row) = Inl e"
  shows "main docx_render read_csv True (Some tb) (Some csv_bytes) ft = ([], Some e)"
proof -
  let ?ctx = "to_dict (columns data)"
  let ?item = "\<lambda>(i, row). (index_label data i, ?ctx row)"
  have "iterrows data = map ?item (enumerate 0 before) @
      (index_label data (length before), ?ctx row) #
      map ?item (enumerate (Suc (length before)) after)"
    by (simp add: iterrows_def assms(2) enumerate_append_eq)
  moreover have "\<forall>(i, ctx) \<in> set (map ?item (enumerate 0 before)).
      \<exists>d. generate_doc docx_render tb ctx = Inr d"
    using assms(3) by (auto simp: in_set_enumerate_eq)
  ultimately have "write_rows docx_render tb ft [] (iterrows data) = Inl e"
    using write_rows_raises [OF _ assms(4)] by simp
  then show ?thesis
    using assms(1) by (simp add: main_def)
qed

lemma first_failing_row:
  assumes "\<exists>row \<in> set rs. \<exists>e. f row = Inl e"
  shows "\<exists>before row after e. rs = before @ row # after \<and>
     (\<forall>r \<in> set before. \<exists>d. f r = Inr d) \<and> f row = Inl e"
proof -
  obtain before row after where split: "rs = before @ row # after"
    and fails: "\<exists>e. f row = Inl e" and ok: "\<forall>r \<in> set before. \<not> (\<exists>e. f r = Inl e)"
    using split_list_first_prop [OF assms] by blast
  have "\<forall>r \<in> set before. \<exists>d. f r = Inr d"
  proof
    fix r assume "r \<in> set before"
    then show "\<exists>d. f r = Inr d" using ok by (cases "f r") auto
  qed
  then show ?thesis using split fails by blast
qed

text \<open>The definitions that a concrete run unfolds.\<close>

lemmas run_defs = main_def parsed_as_def render_copy_def render_rejecting_def generate_doc_def
  iterrows_def to_dict_def docx_filename_def filename_prefix_def expand_filename_template_def
  placeholder_def str_replace_def strip_def isspace_def digit_def

section \<open>The orchestrator's contract\<close>







text \<open>
  The label is not always the position. When every data row ends in a delimiter, the
  first field becomes the label: the frame read from the header \<open>Nachname;Vorname\<close>
  and the rows \<open>Meier;Anna;\<close> and \<open>Huber;Bob;\<close> has the labels \<open>Meier\<close> and \<open>Huber\<close>, and a
  blank filename template names the entries after them. Two rows with the same first
  field then take the same fallback name.
\<close>

lemma fallback_name_after_label:
  "main render_copy
     (parsed_as \<lparr>columns = [''Nachname'', ''Vorname''],
        rows = [[Str ''Anna'', NaN], [Str ''Bob'', NaN]],
        index_label = (\<lambda>i. Field (Str ([''Meier'', ''Huber''] ! i)))\<rparr>)
     True (Some ''T'') (Some ''csv'') '' '' =
     (success_page [(''Eintrag_Meier.docx'', ''T''), (''Eintrag_Huber.docx'', ''T'')], None)"
  by (simp add: run_defs)

lemma fallback_names_repeat:
  "main render_copy
     (parsed_as \<lparr>columns = [''Nachname'', ''Vorname''],
        rows = [[Str ''Anna'', NaN], [Str ''Bob'', NaN]],
        index_label = (\<lambda>i. Field (Str ''Meier''))\<rparr>)
     True (Some ''T'') (Some ''csv'') '' '' =
     (success_page [(''Eintrag_Meier.docx'', ''T''), (''Eintrag_Meier.docx'', ''T'')], None)"
  by (simp add: run_defs)




text \<open>
  C8. If rendering fails for any row, the exception leaves \<open>main\<close> and the batch
  aborts: neither the success message nor a download button is shown, so no archive
  and no partial archive. The exception is that of the first failing row, and whatever
  rows follow that row have no part in the outcome.
\<close>

theorem render_failure_aborts_batch:
  assumes "read_csv csv_bytes = Inr data"
  shows "((\<exists>row \<in> set (rows data).
             \<exists>e. generate_doc docx_render tb (to_dict (columns data) row) = Inl e) \<longrightarrow>
          (\<exists>e. main docx_render read_csv True (Some tb) (Some csv_bytes) ft = ([], Some e)))
     \<and> (rows data = before @ row # after \<and>
          (\<forall>r \<in> set before.
             \<exists>d. generate_doc docx_render tb (to_dict (columns data) r) = Inr d) \<and>
          generate_doc docx_render tb (to_dict (columns data) row) = Inl e \<longrightarrow>
          main docx_render read_csv True (Some tb) (Some csv_bytes) ft = ([], Some e))"
proof -
  have first: "main docx_render read_csv True (Some tb) (Some csv_bytes) ft = ([], Some e')"
    if "rows data = xs @ x # ys"
      and "\<forall>r \<in> set xs. \<exists>d. generate_doc docx_render tb (to_dict (columns data) r) = Inr d"
      and "generate_doc docx_render tb (to_dict (columns data) x) = Inl e'"
    for xs x ys e'
    using assms that by (rule main_raises)
  have "\<exists>e. main docx_render read_csv True (Some tb) (Some csv_bytes) ft = ([], Some e)"
    if "\<exists>row \<in> set (rows data).
          \<exists>e. generate_doc docx_render tb (to_dict (columns data) row) = Inl e"
    using first_failing_row [OF that] first by blast
  then show ?thesis
    using first by blast
qed

theorem render_failure_aborts_batch_witness:
  "main (render_rejecting [(''Vorname'', Str ''Bob'')])
     (parsed_as \<lparr>columns = [''Vorname''], rows = [[Str ''Anna''], [Str ''Bob''], [Str ''Cleo'']], index_label = Position\<rparr>)
     True (Some ''T'') (Some ''csv'') ''Brief_{Vorname}'' = ([], Some (Exception ''render failed''))"
proof -
  let ?data = "\<lparr>columns = [''Vorname''], rows = [[Str ''Anna''], [Str ''Bob''], [Str ''Cleo'']], index_label = Position\<rparr>"
  let ?render = "render_rejecting [(''Vorname'', Str ''Bob'')]"
  have "parsed_as ?data ''csv'' = Inr ?data"
    by (simp add: parsed_as_def)
  moreover have "rows ?data = [[Str ''Anna'']] @ [Str ''Bob''] # [[Str ''Cleo'']]"
    by simp
  moreover have "\<forall>r \<in> set [[Str ''Anna'']].
      \<exists>d. generate_doc ?render ''T'' (to_dict (columns ?data) r) = Inr d"
    by (simp add: generate_doc_def render_rejecting_def to_dict_def)
  moreover have "generate_doc ?render ''T'' (to_dict (columns ?data) [Str ''Bob'']) =
      Inl (Exception ''render failed'')"
    by (simp add: generate_doc_def render_rejecting_def to_dict_def)
  ultimately show ?thesis
    using render_failure_aborts_batch [of "parsed_as ?data" "''csv''" ?data ?render "''T''"
        "''Brief_{Vorname}''" "[[Str ''Anna'']]" "[Str ''Bob'']" "[[Str ''Cleo'']]"
        "Exception ''render failed''"]
    by blast
qed

text \<open>
  C9. If the template or the tabular source is absent when the button is pressed, the
  warning is shown and nothing else happens: whatever the parser and the renderer
  would do, they are not called, no archive is offered and no exception leaves \<open>main\<close>.
\<close>

theorem missing_input_warns:
  assumes "uploaded_template = None \<or> csv_file = None"
  shows "main docx_render read_csv True uploaded_template csv_file ft =
     ([Warning ''Bitte lade sowohl das Word-Template als auch eine CSV-Datei hoch.''], None)"
  using assms by (auto simp: main_def split: option.splits)

theorem missing_input_warns_witness:
  "main (render_rejecting []) (parsed_as \<lparr>columns = [''Vorname''], rows = [[Str ''Anna'']], index_label = Position\<rparr>)
     True None (Some ''csv'') ''Brief_{Vorname}'' =
     ([Warning ''Bitte lade sowohl das Word-Template als auch eine CSV-Datei hoch.''], None)"
  by (rule missing_input_warns) simp

text \<open>
  C3 says that the row context maps every column to a string and a missing cell to the
  empty string. The code keeps what pandas delivers: the context of a row with a
  missing cell maps that column to \<open>nan\<close>, its placeholder expands to the text \<open>nan\<close>,
  and a filename made of that placeholder alone is \<open>nan.docx\<close>, not the fallback name.
\<close>

theorem missing_cell_is_nan:
  "iterrows \<lparr>columns = [''Vorname'', ''Nachname''], rows = [[Str ''Anna'', NaN]], index_label = Position\<rparr> =
     [(Position 0, [(''Vorname'', Str ''Anna''), (''Nachname'', NaN)])] \<and>
   expand_filename_template ''Brief_{Nachname}'' [(''Vorname'', Str ''Anna''), (''Nachname'', NaN)] =
     ''Brief_nan'' \<and>
   main render_copy (parsed_as \<lparr>columns = [''Vorname'', ''Nachname''], rows = [[Str ''Anna'', NaN]], index_label = Position\<rparr>)
     True (Some ''T'') (Some ''csv'') ''{Nachname}'' = (success_page [(''nan.docx'', ''T'')], None)"
  by (simp add: run_defs)

end
